theory Spec2Isabelle
  imports Complex_Main
begin

section \<open>Leader selection and particle updates of the MOPSO particle\<close>

text \<open>
  The development embeds \<^verbatim>\<open>optimizer/mopso/particle.py\<close>. Python floats are idealised
  as \<^typ>\<open>real\<close> (no rounding error, no infinities, no NaN); numpy arrays and Python
  lists are HOL lists. A raised exception is a value \<open>Inl e\<close>.
\<close>

subsection \<open>Exceptions\<close>

datatype error =
    ValueError string    \<comment> \<open>the \<^verbatim>\<open>ValueError\<close> raised by the source, with its message\<close>
  | IndexError           \<comment> \<open>an index outside a list or an array\<close>
  | ZeroDivisionError    \<comment> \<open>\<^verbatim>\<open>id % 0\<close>\<close>
  | NumpyError           \<comment> \<open>an exception raised inside numpy (shape or argument check)\<close>

subsection \<open>numpy primitives used by the topologies\<close>

text \<open>
  \<^verbatim>\<open>np.argsort(xs)\<close>: the indices of \<open>xs\<close> in ascending order of their values. numpy's
  default sort is not stable: among equal values the order of the indices is an
  implementation detail of numpy. The model takes the stable order (insertion sort of
  the index range), so it agrees with numpy on the values in sorted order, and on the
  indices wherever the values met are distinct. No statement below rests on the order
  of equal values.
\<close>

definition argsort :: "'d::linorder list \<Rightarrow> nat list" where
  "argsort xs = sort_key (\<lambda>i. xs ! i) [0..<length xs]"

text \<open>\<^verbatim>\<open>np.array(xs)[idx].tolist()\<close>: indexing by an index array raises when an index is
  out of range.\<close>

definition take_indices :: "'a list \<Rightarrow> nat list \<Rightarrow> error + 'a list" where
  "take_indices xs idx =
     (if list_all (\<lambda>i. i < length xs) idx then Inr (map (\<lambda>i. xs ! i) idx)
      else Inl IndexError)"

text \<open>\<^verbatim>\<open>xs[0]\<close> on a Python list.\<close>

definition index0 :: "'a list \<Rightarrow> error + 'a" where
  "index0 xs = (case xs of [] \<Rightarrow> Inl IndexError | x # _ \<Rightarrow> Inr x)"

subsection \<open>The crowding-distance topology\<close>

text \<open>
  \<^verbatim>\<open>
  def crowding_distance_topology(pareto_front, crowding_distances, higher):
      sorted_indexes = np.argsort(crowding_distances[::-1]) if higher else np.argsort(crowding_distances)
      pareto_front = np.array(pareto_front)[sorted_indexes].tolist()
      return pareto_front[0]
  \<close>
\<close>

definition crowding_distance_topology :: "'p list \<Rightarrow> real list \<Rightarrow> bool \<Rightarrow> error + 'p" where
  "crowding_distance_topology pareto_front crowding_distances higher =
     (let sorted_indexes =
            (if higher then argsort (rev crowding_distances) else argsort crowding_distances)
      in case take_indices pareto_front sorted_indexes of
           Inl e \<Rightarrow> Inl e
         | Inr pareto_front' \<Rightarrow> index0 pareto_front')"


subsection \<open>The random-ring topology\<close>

text \<open>
  The process-wide generator \<^verbatim>\<open>Randomizer.rng\<close> is a numpy \<^verbatim>\<open>Generator\<close>. Its answers
  are inputs of the model: a function that draws takes the raw draws and reduces them
  into the range the generator guarantees, so that every value of the draws stands for
  a possible run and every possible run is reached by some draws.

  \<^verbatim>\<open>
  while(True):
      indexes = Randomizer.rng.integers(0, pareto_len, size = 2)
      if indexes[0] != indexes[1]: break
  \<close>
  The loop consumes the list of successive pairs; \<open>None\<close> says that the loop has not
  ended within the pairs supplied.
\<close>

fun draw_distinct :: "nat \<Rightarrow> (nat \<times> nat) list \<Rightarrow> (nat \<times> nat) option" where
  "draw_distinct pareto_len [] = None"
| "draw_distinct pareto_len ((a, b) # draws) =
     (if a mod pareto_len \<noteq> b mod pareto_len then Some (a mod pareto_len, b mod pareto_len)
      else draw_distinct pareto_len draws)"

text \<open>
  \<^verbatim>\<open>
  def random_ring_topology(pareto_front, crowding_distances, higher):
      pareto_len = len(pareto_front)
      if pareto_len < 2: return pareto_front[0]
      while(True): ...
      pareto_particles = [pareto_front[i] for i in range(pareto_len) if i in indexes]
      sorted_indexes = np.argsort(crowding_distances[indexes][::-1]) if higher else np.argsort(crowding_distances[indexes])
      pareto_particles = np.array(pareto_particles)[sorted_indexes].tolist()
      return pareto_particles[0]
  \<close>
  The comprehension walks \<open>range(pareto_len)\<close>, so \<open>pareto_particles\<close> is in the order
  of the front, while \<open>crowding_distances[indexes]\<close> is in the order of the draw.
\<close>

definition random_ring_topology ::
  "'p list \<Rightarrow> real list \<Rightarrow> bool \<Rightarrow> (nat \<times> nat) list \<Rightarrow> (error + 'p) option" where
  "random_ring_topology pareto_front crowding_distances higher draws =
     (let pareto_len = length pareto_front in
      if pareto_len < 2 then Some (index0 pareto_front)
      else
        (case draw_distinct pareto_len draws of
           None \<Rightarrow> None
         | Some (i0, i1) \<Rightarrow>
             Some
               (let pareto_particles =
                      map (\<lambda>i. pareto_front ! i)
                        (filter (\<lambda>i. i = i0 \<or> i = i1) [0..<pareto_len])
                in case take_indices crowding_distances [i0, i1] of
                     Inl e \<Rightarrow> Inl e
                   | Inr ds \<Rightarrow>
                       (let sorted_indexes = (if higher then argsort (rev ds) else argsort ds)
                        in case take_indices pareto_particles sorted_indexes of
                             Inl e \<Rightarrow> Inl e
                           | Inr pareto_particles' \<Rightarrow> index0 pareto_particles'))))"

subsection \<open>Boltzmann weighting and the weighted topology\<close>

text \<open>
  \<^verbatim>\<open>
  def boltzmann(crowding_distances, higher):
      cd_list = crowding_distances
      len_cd = len(cd_list)
      if len_cd == 1: return [1]
      if len_cd == 2: return Randomizer.rng.choice([[1,0], [0, 1]])
      pdf = np.empty(len_cd)
      if higher: cd_list = [1 / (cd + 1e-9) for cd in cd_list]
      for i in range(len_cd):
          pdf[i] = np.exp(-cd_list[i])
      pdf = pdf / (np.sum(pdf))
      return pdf
  \<close>
  \<open>row\<close> is the generator's draw for the choice between the two rows. In the branch
  for three or more distances the idealisation to \<^typ>\<open>real\<close> presumes
  \<open>cd + 1e-9 \<noteq> 0\<close> (crowding distances are non-negative).
\<close>

definition boltzmann :: "real list \<Rightarrow> bool \<Rightarrow> nat \<Rightarrow> real list" where
  "boltzmann crowding_distances higher row =
     (let cd_list = crowding_distances; len_cd = length cd_list in
      if len_cd = 1 then [1]
      else if len_cd = 2 then (if row mod 2 = 0 then [1, 0] else [0, 1])
      else
        (let cd_list' = (if higher then map (\<lambda>cd. 1 / (cd + 1 / 10 ^ 9)) cd_list else cd_list);
             pdf = map (\<lambda>c. exp (- c)) cd_list'
         in map (\<lambda>x. x / sum_list pdf) pdf))"

text \<open>
  \<^verbatim>\<open>rng.choice(a)\<close> picks \<open>a[k]\<close> for a uniform index \<open>k\<close> and rejects an empty \<open>a\<close>.
  \<^verbatim>\<open>rng.choice(a, p = pdf)\<close> checks that \<open>pdf\<close> has the size of \<open>a\<close>, is non-negative and
  sums to one, then returns \<open>a[k]\<close> for the number \<open>k\<close> of entries of the cumulative sums
  of \<open>pdf\<close> that are at most the uniform variate \<open>u\<close> in \<open>[0, 1)\<close>.
\<close>

definition rng_choice :: "'a list \<Rightarrow> nat \<Rightarrow> error + 'a" where
  "rng_choice a k = (if a = [] then Inl NumpyError else Inr (a ! (k mod length a)))"

fun cumsum :: "real \<Rightarrow> real list \<Rightarrow> real list" where
  "cumsum acc [] = []"
| "cumsum acc (x # xs) = (acc + x) # cumsum (acc + x) xs"

definition rng_choice_p :: "'a list \<Rightarrow> real list \<Rightarrow> real \<Rightarrow> error + 'a" where
  "rng_choice_p a pdf u =
     (if a = [] then Inl NumpyError
      else if length pdf \<noteq> length a then Inl NumpyError
      else if \<not> list_all (\<lambda>x. 0 \<le> x) pdf then Inl NumpyError
      else if sum_list pdf \<noteq> 1 then Inl NumpyError
      else
        (let k = length (filter (\<lambda>c. c \<le> frac u) (cumsum 0 pdf))
         in if k < length a then Inr (a ! k) else Inl IndexError))"

text \<open>
  \<^verbatim>\<open>
  def weighted_crowding_distance_topology(pareto_front, crowding_distances, higher):
      pdf = boltzmann(crowding_distances, higher)
      return Randomizer.rng.choice(pareto_front, p = pdf)
  \<close>
\<close>

definition weighted_crowding_distance_topology ::
  "'p list \<Rightarrow> real list \<Rightarrow> bool \<Rightarrow> nat \<Rightarrow> real \<Rightarrow> error + 'p" where
  "weighted_crowding_distance_topology pareto_front crowding_distances higher row u =
     (let pdf = boltzmann crowding_distances higher row
      in rng_choice_p pareto_front pdf u)"

subsection \<open>The round-robin topology\<close>

text \<open>
  \<^verbatim>\<open>
  def round_robin_topology(pareto_front, id):
      index = id % len(pareto_front)
      return pareto_front[index]
  \<close>
  Python's \<open>%\<close> by a positive length is the non-negative remainder, as \<open>mod\<close> on
  \<^typ>\<open>int\<close> is.
\<close>

definition round_robin_topology :: "'p list \<Rightarrow> int \<Rightarrow> error + 'p" where
  "round_robin_topology pareto_front ident =
     (if length pareto_front = 0 then Inl ZeroDivisionError
      else Inr (pareto_front ! nat (ident mod int (length pareto_front))))"

subsection \<open>The particle\<close>

text \<open>
  The fields of \<^verbatim>\<open>Particle\<close>. Fitness values are only ever compared, so their type is
  any linear order (which leaves room for the initial \<open>+inf\<close> of \<open>best_fitness\<close>);
  NaN is excluded. The field \<^verbatim>\<open>id\<close> is named \<open>ident\<close>.
\<close>

record 'f particle =
  position :: "real list"
  num_objectives :: nat
  num_particles :: nat
  velocity :: "real list"
  best_position :: "real list"
  best_fitness :: "'f list"
  fitness :: "'f list"
  ident :: int
  topology :: string

text \<open>The draws of the generator that one call of \<^verbatim>\<open>get_pareto_leader\<close> may consume.\<close>

record generator =
  choice_index :: nat                  \<comment> \<open>\<^verbatim>\<open>rng.choice(pareto_front)\<close>\<close>
  choice_row :: nat                    \<comment> \<open>\<^verbatim>\<open>rng.choice([[1,0], [0, 1]])\<close>\<close>
  choice_variate :: real               \<comment> \<open>the variate of \<^verbatim>\<open>rng.choice(pareto_front, p = pdf)\<close>\<close>
  integers_pairs :: "(nat \<times> nat) list"  \<comment> \<open>successive \<^verbatim>\<open>rng.integers(0, pareto_len, size = 2)\<close>\<close>

text \<open>
  \<^verbatim>\<open>get_pareto_leader\<close>: the chain of comparisons of \<open>self.topology\<close> with the eight
  names, in the order of the source, and the \<^verbatim>\<open>ValueError\<close> of the last branch.
\<close>

definition get_pareto_leader ::
  "'f particle \<Rightarrow> 'p list \<Rightarrow> real list \<Rightarrow> generator \<Rightarrow> (error + 'p) option" where
  "get_pareto_leader self pareto_front crowding_distances rng =
     (if topology self = ''random'' then
        Some (rng_choice pareto_front (choice_index rng))
      else if topology self = ''higher_crowding_distance'' then
        Some (crowding_distance_topology pareto_front crowding_distances True)
      else if topology self = ''lower_crowding_distance'' then
        Some (crowding_distance_topology pareto_front crowding_distances False)
      else if topology self = ''higher_weighted_crowding_distance'' then
        Some (weighted_crowding_distance_topology pareto_front crowding_distances True
                (choice_row rng) (choice_variate rng))
      else if topology self = ''lower_weighted_crowding_distance'' then
        Some (weighted_crowding_distance_topology pareto_front crowding_distances False
                (choice_row rng) (choice_variate rng))
      else if topology self = ''round_robin'' then
        Some (round_robin_topology pareto_front (ident self))
      else if topology self = ''higher_crowding_distance_random_ring'' then
        random_ring_topology pareto_front crowding_distances True (integers_pairs rng)
      else if topology self = ''lower_crowding_distance_random_ring'' then
        random_ring_topology pareto_front crowding_distances False (integers_pairs rng)
      else
        Some (Inl (ValueError (''MOPSO: '' @ topology self @ '' not implemented!''))))"

text \<open>The eight names that \<^verbatim>\<open>get_pareto_leader\<close> recognises.\<close>

definition topologies :: "string list" where
  "topologies =
     [''random'', ''higher_crowding_distance'', ''lower_crowding_distance'',
      ''higher_weighted_crowding_distance'', ''lower_weighted_crowding_distance'',
      ''round_robin'', ''higher_crowding_distance_random_ring'',
      ''lower_crowding_distance_random_ring'']"


subsection \<open>Position update\<close>

text \<open>
  An entry of the bound lists is a Python scalar; \<^verbatim>\<open>type(lower_bound[i])\<close> tells the three
  kinds apart. \<^verbatim>\<open>np.clip\<close> reads a bound as a number (\<open>True\<close> is \<open>1\<close>).
\<close>

datatype bound = PyInt int | PyBool bool | PyFloat real

fun bound_value :: "bound \<Rightarrow> real" where
  "bound_value (PyInt n) = of_int n"
| "bound_value (PyBool b) = (if b then 1 else 0)"
| "bound_value (PyFloat x) = x"

text \<open>\<^verbatim>\<open>type(b) == int or type(b) == bool\<close>\<close>

fun int_or_bool :: "bound \<Rightarrow> bool" where
  "int_or_bool (PyInt n) = True"
| "int_or_bool (PyBool b) = True"
| "int_or_bool (PyFloat x) = False"

text \<open>\<^verbatim>\<open>np.round\<close>: to the nearest integer, a tie to the even neighbour.\<close>

definition np_round :: "real \<Rightarrow> real" where
  "np_round x =
     (let f = \<lfloor>x\<rfloor>; r = x - of_int f in
      if r < 1 / 2 then of_int f
      else if 1 / 2 < r then of_int (f + 1)
      else if even f then of_int f
      else of_int (f + 1))"

text \<open>
  Broadcasting of one-dimensional shapes: equal lengths, or one of them \<open>1\<close>; an array of
  length \<open>1\<close> is read at index \<open>0\<close> everywhere.
\<close>

definition broadcast_len :: "nat \<Rightarrow> nat \<Rightarrow> nat option" where
  "broadcast_len m n =
     (if m = n then Some m else if m = 1 then Some n else if n = 1 then Some m else None)"

definition bc :: "'a list \<Rightarrow> nat \<Rightarrow> 'a" where
  "bc xs i = (if length xs = 1 then xs ! 0 else xs ! i)"

text \<open>\<^verbatim>\<open>np.clip(x, lo, hi)\<close> is \<open>minimum(maximum(x, lo), hi)\<close>, elementwise.\<close>

definition np_clip :: "real list \<Rightarrow> real list \<Rightarrow> real list \<Rightarrow> error + real list" where
  "np_clip x lo hi =
     (case broadcast_len (length x) (length lo) of
        None \<Rightarrow> Inl NumpyError
      | Some m \<Rightarrow>
          (case broadcast_len m (length hi) of
             None \<Rightarrow> Inl NumpyError
           | Some n \<Rightarrow> Inr (map (\<lambda>i. min (max (bc x i) (bc lo i)) (bc hi i)) [0..<n])))"

text \<open>
  \<^verbatim>\<open>
  def update_position(self, lower_bound, upper_bound):
      new_position = np.empty_like(self.position)
      for i in range(len(lower_bound)):
          if type(lower_bound[i]) == int or type(lower_bound[i]) == bool:
              new_position[i] = np.round(self.position[i] + self.velocity[i])
          else:
              new_position[i] = self.position[i] + self.velocity[i]
      self.position = np.clip(new_position, lower_bound, upper_bound)
  \<close>
  The loop runs over the indices of \<open>lower_bound\<close> and raises where \<open>position\<close>,
  \<open>velocity\<close> or \<open>new_position\<close> is shorter. \<open>np.empty_like\<close> gives an array of the
  length of \<open>position\<close> with arbitrary content, here \<open>junk\<close>. The arrays hold floats.
\<close>

definition new_coordinate :: "bound \<Rightarrow> real \<Rightarrow> real \<Rightarrow> real" where
  "new_coordinate lb p v = (if int_or_bool lb then np_round (p + v) else p + v)"

fun fill_new_position ::
  "bound list \<Rightarrow> real list \<Rightarrow> real list \<Rightarrow> nat list \<Rightarrow> real list \<Rightarrow> error + real list" where
  "fill_new_position lower_bound pos vel [] new_position = Inr new_position"
| "fill_new_position lower_bound pos vel (i # is) new_position =
     (if i < length pos \<and> i < length vel \<and> i < length new_position then
        fill_new_position lower_bound pos vel is
          (new_position[i := new_coordinate (lower_bound ! i) (pos ! i) (vel ! i)])
      else Inl IndexError)"

definition update_position ::
  "'f particle \<Rightarrow> bound list \<Rightarrow> bound list \<Rightarrow> (nat \<Rightarrow> real) \<Rightarrow> error + 'f particle" where
  "update_position self lower_bound upper_bound junk =
     (let new_position = map junk [0..<length (position self)] in
      case fill_new_position lower_bound (position self) (velocity self)
             [0..<length lower_bound] new_position of
        Inl e \<Rightarrow> Inl e
      | Inr new_position' \<Rightarrow>
          (case np_clip new_position' (map bound_value lower_bound)
                  (map bound_value upper_bound) of
             Inl e \<Rightarrow> Inl e
           | Inr clipped \<Rightarrow> Inr (self\<lparr>position := clipped\<rparr>)))"

subsection \<open>Fitness and personal best\<close>

text \<open>
  \<^verbatim>\<open>np.all(self.fitness <= self.best_fitness)\<close> on two arrays (the docstring has them
  \<^verbatim>\<open>numpy.ndarray\<close>): the comparison is elementwise after broadcasting.
\<close>

definition np_all_le :: "'f::linorder list \<Rightarrow> 'f list \<Rightarrow> error + bool" where
  "np_all_le xs ys =
     (case broadcast_len (length xs) (length ys) of
        None \<Rightarrow> Inl NumpyError
      | Some n \<Rightarrow> Inr (list_all (\<lambda>i. bc xs i \<le> bc ys i) [0..<n]))"

text \<open>
  \<^verbatim>\<open>
  def update_best(self):
      if np.all(self.fitness <= self.best_fitness):
          self.best_fitness = self.fitness
          self.best_position = self.position

  def set_fitness(self, fitness):
      self.fitness = fitness
      self.update_best()
  \<close>
\<close>

definition update_best :: "('f::linorder) particle \<Rightarrow> error + 'f particle" where
  "update_best self =
     (case np_all_le (fitness self) (best_fitness self) of
        Inl e \<Rightarrow> Inl e
      | Inr b \<Rightarrow>
          Inr (if b then self\<lparr>best_fitness := fitness self, best_position := position self\<rparr>
               else self))"

definition set_fitness :: "('f::linorder) particle \<Rightarrow> 'f list \<Rightarrow> error + 'f particle" where
  "set_fitness self fitness' = update_best (self\<lparr>fitness := fitness'\<rparr>)"


section \<open>Properties\<close>

subsection \<open>Auxiliary facts\<close>

lemma bc_nth: "i < length xs \<Longrightarrow> bc xs i = xs ! i"
  by (auto simp: bc_def)

lemma np_round_Ints: "np_round x \<in> \<int>"
  by (simp add: np_round_def Let_def)

text \<open>
  \<open>np_round\<close> is rounding to the nearest integer with ties to the even neighbour: the
  result is an integer at distance at most one half, and an integer at distance exactly
  one half is even.
\<close>

lemma np_round_nearest:
  "np_round x \<in> \<int> \<and> \<bar>np_round x - x\<bar> \<le> 1 / 2 \<and>
   (\<bar>np_round x - x\<bar> = 1 / 2 \<longrightarrow> (\<exists>k. np_round x = of_int k \<and> even k))"
proof -
  let ?f = "\<lfloor>x\<rfloor>"
  let ?r = "x - of_int ?f"
  have lo: "0 \<le> ?r" and hi: "?r < 1"
    by linarith+
  consider "?r < 1 / 2" | "1 / 2 < ?r" | "?r = 1 / 2" "even ?f" | "?r = 1 / 2" "odd ?f"
    by fastforce
  then show ?thesis
  proof cases
    case 1
    then have e: "np_round x = of_int ?f"
      by (simp add: np_round_def Let_def)
    have "\<bar>of_int ?f - x\<bar> < 1 / 2"
      using 1 lo by linarith
    then show ?thesis
      unfolding e by simp
  next
    case 2
    then have e: "np_round x = of_int (?f + 1)"
      by (simp add: np_round_def Let_def)
    have "\<bar>of_int (?f + 1) - x\<bar> < 1 / 2"
      using 2 hi by simp
    then show ?thesis
      unfolding e by (simp del: of_int_add)
  next
    case 3
    then have e: "np_round x = of_int ?f"
      by (simp add: np_round_def Let_def)
    have "\<bar>of_int ?f - x\<bar> = 1 / 2"
      using 3(1) by linarith
    then show ?thesis
      unfolding e using 3(2) by auto
  next
    case 4
    then have e: "np_round x = of_int (?f + 1)"
      by (simp add: np_round_def Let_def)
    have "\<bar>of_int (?f + 1) - x\<bar> = 1 / 2"
      using 4(1) by simp
    moreover have "even (?f + 1)"
      using 4(2) by simp
    ultimately show ?thesis
      unfolding e by (metis Ints_of_int order_refl)
  qed
qed

lemma clip_Ints:
  "x \<in> \<int> \<Longrightarrow> lo \<in> \<int> \<Longrightarrow> hi \<in> \<int> \<Longrightarrow> min (max x lo) hi \<in> (\<int> :: real set)"
  by (simp add: min_def max_def)

lemma bound_value_Ints: "int_or_bool b \<Longrightarrow> bound_value b \<in> \<int>"
  by (cases b) auto

text \<open>The head of \<open>argsort xs\<close> is the index of a least entry of \<open>xs\<close>.\<close>

lemma argsort_head:
  assumes "xs \<noteq> []"
  shows "\<exists>j js. argsort xs = j # js \<and> j < length xs \<and> (\<forall>k<length xs. xs ! j \<le> xs ! k)"
proof -
  have len: "length (argsort xs) = length xs"
    by (simp add: argsort_def)
  with assms obtain j js where a: "argsort xs = j # js"
    by (cases "argsort xs") simp_all
  have mem: "k \<in> set (argsort xs) \<longleftrightarrow> k < length xs" for k
    by (simp add: argsort_def)
  have srt: "sorted (map (\<lambda>i. xs ! i) (argsort xs))"
    by (simp add: argsort_def)
  have le: "xs ! j \<le> xs ! k" if "k \<in> set js" for k
    using srt that unfolding a by simp
  have "j \<in> set (argsort xs)"
    unfolding a by simp
  then have j: "j < length xs"
    by (simp only: mem)
  have "xs ! j \<le> xs ! k" if "k < length xs" for k
  proof -
    from that have "k \<in> set (j # js)"
      using mem [of k] unfolding a by simp
    then have "k = j \<or> k \<in> set js" by simp
    then show ?thesis using le by blast
  qed
  with j a show ?thesis by blast
qed

lemma argsort_in_range: "list_all (\<lambda>i. i < length xs) (argsort xs)"
  by (simp add: argsort_def list_all_iff)

text \<open>
  What \<open>crowding_distance_topology\<close> returns on a non-empty front with aligned
  distances. Ascending, it is a member of least distance. With \<open>higher\<close>, the index
  \<open>j\<close> found in the reversed distances is used on the front as it is: the least
  distance sits at the mirrored position \<open>length - 1 - j\<close>, not at \<open>j\<close>.
\<close>

lemma crowding_distance_topology_lower:
  assumes "pareto_front \<noteq> []" and "length crowding_distances = length pareto_front"
  shows "\<exists>j<length pareto_front.
           crowding_distance_topology pareto_front crowding_distances False
             = Inr (pareto_front ! j) \<and>
           (\<forall>k<length crowding_distances. crowding_distances ! j \<le> crowding_distances ! k)"
proof -
  from assms have "crowding_distances \<noteq> []" by auto
  from argsort_head [OF this] obtain j js where
    a: "argsort crowding_distances = j # js" and j: "j < length crowding_distances"
    and m: "\<forall>k<length crowding_distances. crowding_distances ! j \<le> crowding_distances ! k"
    by blast
  have "list_all (\<lambda>i. i < length pareto_front) (argsort crowding_distances)"
    using argsort_in_range [of crowding_distances] assms(2) by simp
  then have "crowding_distance_topology pareto_front crowding_distances False
               = Inr (pareto_front ! j)"
    using a by (simp add: crowding_distance_topology_def take_indices_def index0_def)
  with j m assms(2) show ?thesis by auto
qed

lemma crowding_distance_topology_higher:
  assumes "pareto_front \<noteq> []" and "length crowding_distances = length pareto_front"
  shows "\<exists>j<length pareto_front.
           crowding_distance_topology pareto_front crowding_distances True
             = Inr (pareto_front ! j) \<and>
           (\<forall>k<length crowding_distances.
              crowding_distances ! (length crowding_distances - 1 - j) \<le> crowding_distances ! k)"
proof -
  let ?r = "rev crowding_distances"
  let ?n = "length crowding_distances"
  from assms have "?r \<noteq> []" by auto
  from argsort_head [OF this] obtain j js where
    a: "argsort ?r = j # js" and j: "j < ?n"
    and m: "\<forall>k<length ?r. ?r ! j \<le> ?r ! k"
    by auto
  have "list_all (\<lambda>i. i < length pareto_front) (argsort ?r)"
    using argsort_in_range [of ?r] assms(2) by simp
  then have r: "crowding_distance_topology pareto_front crowding_distances True
               = Inr (pareto_front ! j)"
    using a by (simp add: crowding_distance_topology_def take_indices_def index0_def)
  have "crowding_distances ! (?n - 1 - j) \<le> crowding_distances ! k" if "k < ?n" for k
  proof -
    from that have k': "?n - 1 - k < length ?r" by simp
    from m k' have "?r ! j \<le> ?r ! (?n - 1 - k)" by blast
    moreover have "?r ! j = crowding_distances ! (?n - 1 - j)"
      using j by (simp add: rev_nth)
    moreover have "?r ! (?n - 1 - k) = crowding_distances ! k"
      using that by (simp add: rev_nth)
    ultimately show ?thesis by simp
  qed
  with r j assms(2) show ?thesis by auto
qed

text \<open>The loop of \<open>update_position\<close> on index lists within range.\<close>

lemma fill_new_position_Inr:
  "list_all (\<lambda>i. i < length pos \<and> i < length vel \<and> i < length new) js \<Longrightarrow>
   \<exists>new'. fill_new_position lb pos vel js new = Inr new' \<and> length new' = length new \<and>
     (\<forall>j<length new. new' ! j =
        (if j \<in> set js then new_coordinate (lb ! j) (pos ! j) (vel ! j) else new ! j))"
proof (induction js arbitrary: new)
  case Nil
  then show ?case by simp
next
  case (Cons i js)
  let ?new = "new[i := new_coordinate (lb ! i) (pos ! i) (vel ! i)]"
  from Cons.prems have i: "i < length pos" "i < length vel" "i < length new"
    and js: "list_all (\<lambda>i. i < length pos \<and> i < length vel \<and> i < length ?new) js"
    by simp_all
  from Cons.IH [OF js] obtain new' where
    r: "fill_new_position lb pos vel js ?new = Inr new'" and l: "length new' = length ?new"
    and v: "\<forall>j<length ?new. new' ! j =
        (if j \<in> set js then new_coordinate (lb ! j) (pos ! j) (vel ! j) else ?new ! j)"
    by blast
  have "fill_new_position lb pos vel (i # js) new = Inr new'"
    using i r by simp
  moreover have "length new' = length new" using l by simp
  moreover have "\<forall>j<length new. new' ! j =
        (if j \<in> set (i # js) then new_coordinate (lb ! j) (pos ! j) (vel ! j) else new ! j)"
    using v i by (auto simp: nth_list_update)
  ultimately show ?case by blast
qed

text \<open>With bounds, position and velocity of one length, \<open>update_position\<close> returns, and
  the content of the fresh array does not matter.\<close>

lemma update_position_eq:
  assumes "length lower_bound = length (position self)"
    and "length upper_bound = length (position self)"
    and "length (velocity self) = length (position self)"
  shows "update_position self lower_bound upper_bound junk =
    Inr (self\<lparr>position :=
      map (\<lambda>i. min (max (new_coordinate (lower_bound ! i) (position self ! i) (velocity self ! i))
                      (bound_value (lower_bound ! i)))
                 (bound_value (upper_bound ! i)))
        [0..<length (position self)]\<rparr>)"
proof -
  let ?n = "length (position self)"
  let ?new = "map junk [0..<?n]"
  have "list_all (\<lambda>i. i < length (position self) \<and> i < length (velocity self) \<and> i < length ?new)
          [0..<length lower_bound]"
    using assms by (simp add: list_all_iff)
  from fill_new_position_Inr [OF this, of lower_bound] obtain new' where
    r: "fill_new_position lower_bound (position self) (velocity self) [0..<length lower_bound] ?new
          = Inr new'"
    and l: "length new' = ?n"
    and v: "\<forall>j<?n. new' ! j =
       new_coordinate (lower_bound ! j) (position self ! j) (velocity self ! j)"
    using assms by auto
  have "np_clip new' (map bound_value lower_bound) (map bound_value upper_bound) =
    Inr (map (\<lambda>i. min (max (new_coordinate (lower_bound ! i) (position self ! i) (velocity self ! i))
                      (bound_value (lower_bound ! i)))
                 (bound_value (upper_bound ! i))) [0..<?n])"
    using assms l v by (simp add: np_clip_def broadcast_len_def bc_nth)
  then show ?thesis
    using r by (simp add: update_position_def)
qed

lemma np_all_le_same_length:
  "length xs = length ys \<Longrightarrow> np_all_le xs ys = Inr (list_all2 (\<le>) xs ys)"
  by (simp add: np_all_le_def broadcast_len_def list_all_iff list_all2_conv_all_nth bc_nth
      Ball_def)

lemma set_fitness_same_length:
  assumes "length f = length (best_fitness self)"
  shows "set_fitness self f =
     Inr (if list_all2 (\<le>) f (best_fitness self)
          then self\<lparr>fitness := f, best_fitness := f, best_position := position self\<rparr>
          else self\<lparr>fitness := f\<rparr>)"
  using assms by (simp add: set_fitness_def update_best_def np_all_le_same_length)

lemma boltzmann_short:
  "length cd \<le> 2 \<Longrightarrow> boltzmann cd True row = boltzmann cd False row"
  by (cases cd) (auto simp: boltzmann_def Let_def le_Suc_eq)

text \<open>The comprehension over \<open>range(pareto_len)\<close> lists two indices in ascending order.\<close>

lemma filter_two_indices:
  assumes "i0 < i1" and "i1 < n"
  shows "filter (\<lambda>i. i = i0 \<or> i = i1) [0..<n] = [i0, i1]"
proof -
  have split: "[0..<n] = [0..<i0] @ i0 # [Suc i0..<i1] @ i1 # [Suc i1..<n]"
  proof -
    have "[0..<n] = [0..<i1] @ [i1..<n]"
      using assms by (metis less_imp_le_nat zero_le le_add_diff_inverse upt_add_eq_append)
    moreover have "[i1..<n] = i1 # [Suc i1..<n]"
      using assms by (simp add: upt_conv_Cons)
    moreover have "[0..<i1] = [0..<i0] @ [i0..<i1]"
      using assms by (metis less_imp_le_nat zero_le le_add_diff_inverse upt_add_eq_append)
    moreover have "[i0..<i1] = i0 # [Suc i0..<i1]"
      using assms by (simp add: upt_conv_Cons)
    ultimately show ?thesis by simp
  qed
  have "filter (\<lambda>i. i = i0 \<or> i = i1) [0..<i0] = []"
    using assms by (auto simp: filter_empty_conv)
  moreover have "filter (\<lambda>i. i = i0 \<or> i = i1) [Suc i0..<i1] = []"
    using assms by (auto simp: filter_empty_conv)
  moreover have "filter (\<lambda>i. i = i0 \<or> i = i1) [Suc i1..<n] = []"
    using assms by (auto simp: filter_empty_conv)
  ultimately show ?thesis
    using assms by (simp only: split filter_append filter.simps) simp
qed

text \<open>
  The random-ring topology when the first index drawn is the smaller one and the two
  crowding distances differ: then the order of the draw is the order of the front, and
  the member returned is the one of higher (resp. lower) crowding distance.
\<close>

lemma random_ring_topology_ascending_draw:
  assumes "i0 < i1" and "i1 < length pareto_front"
    and "length crowding_distances = length pareto_front"
    and "crowding_distances ! i0 \<noteq> crowding_distances ! i1"
  shows "random_ring_topology pareto_front crowding_distances True ((i0, i1) # draws) =
           Some (Inr (if crowding_distances ! i0 < crowding_distances ! i1
                      then pareto_front ! i1 else pareto_front ! i0)) \<and>
         random_ring_topology pareto_front crowding_distances False ((i0, i1) # draws) =
           Some (Inr (if crowding_distances ! i1 < crowding_distances ! i0
                      then pareto_front ! i1 else pareto_front ! i0))"
proof -
  let ?n = "length pareto_front"
  have m: "i0 mod ?n = i0" "i1 mod ?n = i1" using assms by simp_all
  have d: "draw_distinct ?n ((i0, i1) # draws) = Some (i0, i1)"
    using assms m by simp
  have f: "filter (\<lambda>i. i = i0 \<or> i = i1) [0..<?n] = [i0, i1]"
    using assms(1,2) by (rule filter_two_indices)
  have n2: "\<not> ?n < 2" using assms by simp
  have r: "i0 < length crowding_distances" "i1 < length crowding_distances"
    using assms by simp_all
  have t: "take_indices crowding_distances [i0, i1]
             = Inr [crowding_distances ! i0, crowding_distances ! i1]"
    using assms by (simp add: take_indices_def)
  show ?thesis
    using n2 r by (simp add: random_ring_topology_def d f t argsort_def take_indices_def
        index0_def upt_conv_Cons del: draw_distinct.simps)
qed

subsection \<open>Claims on leader selection\<close>

text \<open>
  C1. On a non-empty front with aligned crowding distances, the topology
  \<open>higher_crowding_distance\<close> is to return the member of greatest distance and
  \<open>lower_crowding_distance\<close> the member of least distance. The ascending half holds
  (\<open>crowding_distance_topology_lower\<close>). The descending half does not: on the front
  \<open>a, b, c\<close> with distances \<open>3, 1, 2\<close> the topology \<open>higher_crowding_distance\<close>
  returns \<open>b\<close>, the member of least distance, where the member of greatest distance
  is \<open>a\<close>.
\<close>

theorem higher_crowding_distance_returns_least:
  "get_pareto_leader (self\<lparr>topology := ''higher_crowding_distance''\<rparr>)
     [''a'', ''b'', ''c''] [3, 1, 2] rng = Some (Inr ''b'')"
  by (simp add: get_pareto_leader_def crowding_distance_topology_def argsort_def
      take_indices_def index0_def upt_conv_Cons)

text \<open>
  C2. On a front of two or more members the random-ring topologies are to return, of
  the two members drawn, the one of higher (resp. lower) crowding distance, whatever
  the pair drawn. On the front \<open>p0, p1\<close> with distances \<open>1, 2\<close> and the draw
  \<open>(1, 0)\<close>, the higher variant returns \<open>p0\<close> (distance \<open>1\<close>) and the lower
  variant returns \<open>p1\<close> (distance \<open>2\<close>): the two particles are listed in the order
  of the front, their distances in the order of the draw. For a draw in ascending order
  the member returned is the right one (\<open>random_ring_topology_ascending_draw\<close>).
\<close>

theorem random_ring_descending_draw:
  "get_pareto_leader (self\<lparr>topology := ''higher_crowding_distance_random_ring''\<rparr>)
     [''p0'', ''p1''] [1, 2] (rng\<lparr>integers_pairs := [(1, 0)]\<rparr>) = Some (Inr ''p0'') \<and>
   get_pareto_leader (self\<lparr>topology := ''lower_crowding_distance_random_ring''\<rparr>)
     [''p0'', ''p1''] [1, 2] (rng\<lparr>integers_pairs := [(1, 0)]\<rparr>) = Some (Inr ''p1'')"
  by (simp add: get_pareto_leader_def random_ring_topology_def argsort_def
      take_indices_def index0_def upt_conv_Cons)

text \<open>
  C6. On a front of exactly two members with crowding distances \<open>d0 > d1\<close>, the
  topology \<open>higher_crowding_distance\<close> returns the member of distance \<open>d0\<close> and
  \<open>lower_crowding_distance\<close> the member of distance \<open>d1\<close>.
\<close>

theorem two_members_crowding_distance:
  "d1 < d0 \<Longrightarrow>
   get_pareto_leader (self\<lparr>topology := ''higher_crowding_distance''\<rparr>)
     [m0, m1] [d0, d1] rng = Some (Inr m0) \<and>
   get_pareto_leader (self\<lparr>topology := ''lower_crowding_distance''\<rparr>)
     [m0, m1] [d0, d1] rng = Some (Inr m1)"
  by (simp add: get_pareto_leader_def crowding_distance_topology_def argsort_def
      take_indices_def index0_def upt_conv_Cons)

theorem two_members_crowding_distance_witness:
  "(1::real) < 2 \<and>
   get_pareto_leader
     \<lparr>position = [0], num_objectives = 1, num_particles = 2, velocity = [0],
      best_position = [0], best_fitness = [1::real], fitness = [1], ident = 0,
      topology = ''higher_crowding_distance''\<rparr>
     [''m0'', ''m1''] [2, 1]
     \<lparr>choice_index = 0, choice_row = 0, choice_variate = 0, integers_pairs = []\<rparr>
     = Some (Inr ''m0'') \<and>
   get_pareto_leader
     \<lparr>position = [0], num_objectives = 1, num_particles = 2, velocity = [0],
      best_position = [0], best_fitness = [1::real], fitness = [1], ident = 0,
      topology = ''lower_crowding_distance''\<rparr>
     [''m0'', ''m1''] [2, 1]
     \<lparr>choice_index = 0, choice_row = 0, choice_variate = 0, integers_pairs = []\<rparr>
     = Some (Inr ''m1'')"
  using two_members_crowding_distance [of 1 2
      "\<lparr>position = [0], num_objectives = 1, num_particles = 2, velocity = [0],
        best_position = [0], best_fitness = [1::real], fitness = [1], ident = 0,
        topology = ''random''\<rparr>"
      "''m0''" "''m1''"
      "\<lparr>choice_index = 0, choice_row = 0, choice_variate = 0, integers_pairs = []\<rparr>"]
  by simp

text \<open>
  C7. For one crowding distance \<open>boltzmann\<close> returns \<open>[1]\<close>. For two it returns one of
  the one-hot vectors \<open>[1, 0]\<close> and \<open>[0, 1]\<close>, the one the generator's draw picks, and
  each of the two is returned for some draw. (That the draw is uniform is the contract
  of \<^verbatim>\<open>rng.choice\<close>.)
\<close>

theorem boltzmann_one_or_two:
  "boltzmann [d] higher row = [1] \<and>
   (boltzmann [d0, d1] higher row = [1, 0] \<or> boltzmann [d0, d1] higher row = [0, 1]) \<and>
   boltzmann [d0, d1] higher 0 = [1, 0] \<and>
   boltzmann [d0, d1] higher 1 = [0, 1]"
  by (simp add: boltzmann_def)

text \<open>
  C8. For a topology string that is none of the eight names, \<open>get_pareto_leader\<close>
  raises the \<^verbatim>\<open>ValueError\<close> whose message holds that string; no leader is returned.
\<close>

theorem unknown_topology_raises:
  "t \<notin> set topologies \<Longrightarrow>
   get_pareto_leader (self\<lparr>topology := t\<rparr>) pareto_front crowding_distances rng =
     Some (Inl (ValueError (''MOPSO: '' @ t @ '' not implemented!'')))"
  by (simp add: topologies_def get_pareto_leader_def)

theorem unknown_topology_raises_witness:
  "''ring'' \<notin> set topologies \<and>
   get_pareto_leader
     \<lparr>position = [0], num_objectives = 1, num_particles = 2, velocity = [0],
      best_position = [0], best_fitness = [1::real], fitness = [1], ident = 0,
      topology = ''ring''\<rparr>
     [''m0'', ''m1''] [2, 1]
     \<lparr>choice_index = 0, choice_row = 0, choice_variate = 0, integers_pairs = []\<rparr>
     = Some (Inl (ValueError ''MOPSO: ring not implemented!''))"
proof -
  have h: "''ring'' \<notin> set topologies"
    by (simp add: topologies_def)
  show ?thesis
    using h unknown_topology_raises [OF h, of
      "\<lparr>position = [0], num_objectives = 1, num_particles = 2, velocity = [0],
        best_position = [0], best_fitness = [1::real], fitness = [1], ident = 0,
        topology = ''random''\<rparr>"
      "[''m0'', ''m1'']" "[2, 1]"
      "\<lparr>choice_index = 0, choice_row = 0, choice_variate = 0, integers_pairs = []\<rparr>"]
    by simp
qed

text \<open>
  C9. On a front of exactly one member both random-ring topologies return that member,
  whatever the crowding distances and the draws; no error is raised and no draw is
  consumed.
\<close>

theorem random_ring_single_member:
  "get_pareto_leader (self\<lparr>topology := ''higher_crowding_distance_random_ring''\<rparr>)
     [m] crowding_distances rng = Some (Inr m) \<and>
   get_pareto_leader (self\<lparr>topology := ''lower_crowding_distance_random_ring''\<rparr>)
     [m] crowding_distances rng = Some (Inr m) \<and>
   random_ring_topology [m] crowding_distances higher draws = Some (Inr m)"
  by (simp add: get_pareto_leader_def random_ring_topology_def index0_def)

text \<open>
  C10. For at most two crowding distances \<open>boltzmann\<close> does not depend on \<open>higher\<close>:
  under the same draws it returns the same vector, so the two weighted topologies
  select the same leader (or raise the same error).
\<close>

theorem weighted_topologies_agree_on_short_fronts:
  "length crowding_distances \<le> 2 \<Longrightarrow>
   boltzmann crowding_distances True row = boltzmann crowding_distances False row \<and>
   weighted_crowding_distance_topology pareto_front crowding_distances True row u =
   weighted_crowding_distance_topology pareto_front crowding_distances False row u \<and>
   get_pareto_leader (self\<lparr>topology := ''higher_weighted_crowding_distance''\<rparr>)
     pareto_front crowding_distances rng =
   get_pareto_leader (self\<lparr>topology := ''lower_weighted_crowding_distance''\<rparr>)
     pareto_front crowding_distances rng"
  by (simp add: boltzmann_short weighted_crowding_distance_topology_def get_pareto_leader_def)

theorem weighted_topologies_agree_on_short_fronts_witness:
  "length [3, 4 :: real] \<le> 2 \<and>
   boltzmann [3, 4] True 1 = boltzmann [3, 4] False 1 \<and>
   boltzmann [3, 4] True 1 = [0, 1] \<and>
   weighted_crowding_distance_topology [''m0'', ''m1''] [3, 4] True 1 (1 / 3) =
   weighted_crowding_distance_topology [''m0'', ''m1''] [3, 4] False 1 (1 / 3) \<and>
   weighted_crowding_distance_topology [''m0'', ''m1''] [3, 4] False 1 (1 / 3) = Inr ''m1''"
proof -
  have h: "length [3, 4 :: real] \<le> 2" by simp
  have e: "weighted_crowding_distance_topology [''m0'', ''m1''] [3, 4] False 1 (1 / 3)
             = Inr ''m1''"
    by (simp add: weighted_crowding_distance_topology_def boltzmann_def rng_choice_p_def
        frac_def)
  have b: "boltzmann [3, 4] False 1 = [0, 1]"
    by (simp add: boltzmann_def)
  show ?thesis
    using h e b weighted_topologies_agree_on_short_fronts [OF h, of 1 "[''m0'', ''m1'']" "1 / 3"
      "\<lparr>position = [0], num_objectives = 1, num_particles = 2, velocity = [0],
        best_position = [0], best_fitness = [1::real], fitness = [1], ident = 0,
        topology = ''random''\<rparr>"
      "\<lparr>choice_index = 0, choice_row = 1, choice_variate = 1 / 3, integers_pairs = []\<rparr>"]
    by simp
qed

subsection \<open>Claims on the particle\<close>

text \<open>
  C3. With bounds, position and velocity of one length, \<open>update_position\<close> returns, and
  coordinate \<open>i\<close> of the new position is \<open>position[i] + velocity[i]\<close>, rounded when
  \<open>lower_bound[i]\<close> is an \<^verbatim>\<open>int\<close> or a \<^verbatim>\<open>bool\<close> and unrounded otherwise, then clipped.
  The rounded value is an integer at distance at most one half from the sum, and even
  when the distance is exactly one half. In a dimension whose lower and upper bound are
  both of integer or boolean kind the new coordinate is an integer.

  The kind of the lower bound alone does not make the coordinate an integer: with
  \<open>lower_bound = [0]\<close>, \<open>upper_bound = [2.5]\<close>, position \<open>2\<close> and velocity \<open>1.2\<close> the
  sum is rounded to \<open>3\<close> and the clip returns \<open>2.5\<close>.
\<close>

theorem update_position_rounds_integer_dimensions:
  assumes "length lower_bound = length (position self)"
    and "length upper_bound = length (position self)"
    and "length (velocity self) = length (position self)"
    and "i < length (position self)"
  shows "\<exists>self'. update_position self lower_bound upper_bound junk = Inr self' \<and>
     position self' ! i =
       (if int_or_bool (lower_bound ! i)
        then min (max (np_round (position self ! i + velocity self ! i))
                   (bound_value (lower_bound ! i))) (bound_value (upper_bound ! i))
        else min (max (position self ! i + velocity self ! i)
                   (bound_value (lower_bound ! i))) (bound_value (upper_bound ! i))) \<and>
     np_round (position self ! i + velocity self ! i) \<in> \<int> \<and>
     \<bar>np_round (position self ! i + velocity self ! i)
        - (position self ! i + velocity self ! i)\<bar> \<le> 1 / 2 \<and>
     (\<bar>np_round (position self ! i + velocity self ! i)
        - (position self ! i + velocity self ! i)\<bar> = 1 / 2 \<longrightarrow>
        (\<exists>k. np_round (position self ! i + velocity self ! i) = of_int k \<and> even k)) \<and>
     (int_or_bool (lower_bound ! i) \<and> int_or_bool (upper_bound ! i)
        \<longrightarrow> position self' ! i \<in> \<int>)"
proof -
  let ?s = "position self ! i + velocity self ! i"
  let ?c = "new_coordinate (lower_bound ! i) (position self ! i) (velocity self ! i)"
  let ?p = "min (max ?c (bound_value (lower_bound ! i))) (bound_value (upper_bound ! i))"
  let ?self' = "self\<lparr>position :=
      map (\<lambda>i. min (max (new_coordinate (lower_bound ! i) (position self ! i) (velocity self ! i))
                      (bound_value (lower_bound ! i)))
                 (bound_value (upper_bound ! i)))
        [0..<length (position self)]\<rparr>"
  have r: "update_position self lower_bound upper_bound junk = Inr ?self'"
    using assms(1-3) by (rule update_position_eq)
  have p: "position ?self' ! i = ?p"
    using assms(4) by simp
  have f: "?p = (if int_or_bool (lower_bound ! i)
        then min (max (np_round ?s)
                   (bound_value (lower_bound ! i))) (bound_value (upper_bound ! i))
        else min (max ?s
                   (bound_value (lower_bound ! i))) (bound_value (upper_bound ! i)))"
    by (simp add: new_coordinate_def)
  have z: "?p \<in> \<int>" if "int_or_bool (lower_bound ! i)" "int_or_bool (upper_bound ! i)"
  proof -
    have "?c \<in> \<int>" using that(1) by (simp add: new_coordinate_def np_round_Ints)
    then show ?thesis
      using that by (intro clip_Ints bound_value_Ints)
  qed
  have n1: "np_round ?s \<in> \<int>"
    and n2: "\<bar>np_round ?s - ?s\<bar> \<le> 1 / 2"
    and n3: "\<bar>np_round ?s - ?s\<bar> = 1 / 2 \<longrightarrow> (\<exists>k. np_round ?s = of_int k \<and> even k)"
    using np_round_nearest [of ?s] by blast+
  have "position ?self' ! i \<in> \<int>"
    if "int_or_bool (lower_bound ! i) \<and> int_or_bool (upper_bound ! i)"
    using z that by (simp only: p)
  moreover have "position ?self' ! i =
       (if int_or_bool (lower_bound ! i)
        then min (max (np_round ?s)
                   (bound_value (lower_bound ! i))) (bound_value (upper_bound ! i))
        else min (max ?s
                   (bound_value (lower_bound ! i))) (bound_value (upper_bound ! i)))"
    using f by (simp only: p)
  ultimately show ?thesis
    using r n1 n2 n3 by blast
qed

theorem update_position_rounds_integer_dimensions_witness:
  "length [PyInt 0, PyInt 0, PyFloat 0] = length [3, 2, 1 / 2 :: real] \<and>
   length [PyInt 5, PyInt 5, PyFloat 1] = length [3, 2, 1 / 2 :: real] \<and>
   length [1 / 2, 1 / 2, 1 / 4 :: real] = length [3, 2, 1 / 2 :: real] \<and>
   (0::nat) < length [3, 2, 1 / 2 :: real] \<and>
   int_or_bool ([PyInt 0, PyInt 0, PyFloat 0] ! 0) \<and>
   int_or_bool ([PyInt 5, PyInt 5, PyFloat 1] ! 0) \<and>
   \<bar>np_round (7 / 2) - 7 / 2\<bar> = 1 / 2 \<and>
   (\<exists>self'. update_position
        \<lparr>position = [3, 2, 1 / 2], num_objectives = 1, num_particles = 2,
         velocity = [1 / 2, 1 / 2, 1 / 4], best_position = [0, 0, 0],
         best_fitness = [1::real], fitness = [1], ident = 0, topology = ''random''\<rparr>
        [PyInt 0, PyInt 0, PyFloat 0] [PyInt 5, PyInt 5, PyFloat 1] (\<lambda>i. 0) = Inr self' \<and>
      position self' = [4, 2, 3 / 4] \<and> position self' ! 0 \<in> \<int>)"
proof -
  let ?self = "\<lparr>position = [3, 2, 1 / 2], num_objectives = 1, num_particles = 2,
         velocity = [1 / 2, 1 / 2, 1 / 4], best_position = [0, 0, 0],
         best_fitness = [1::real], fitness = [1], ident = 0, topology = ''random''\<rparr>"
  have e: "update_position ?self [PyInt 0, PyInt 0, PyFloat 0] [PyInt 5, PyInt 5, PyFloat 1]
             (\<lambda>i. 0) = Inr (?self\<lparr>position := [4, 2, 3 / 4]\<rparr>)"
    by (simp add: update_position_def np_clip_def broadcast_len_def bc_def
        new_coordinate_def np_round_def)
  have t: "\<bar>np_round (7 / 2) - 7 / 2\<bar> = 1 / 2"
    by (simp add: np_round_def)
  from update_position_rounds_integer_dimensions [of "[PyInt 0, PyInt 0, PyFloat 0]" ?self
      "[PyInt 5, PyInt 5, PyFloat 1]" 0 "\<lambda>i. 0"]
  have "\<exists>self'. update_position ?self [PyInt 0, PyInt 0, PyFloat 0]
           [PyInt 5, PyInt 5, PyFloat 1] (\<lambda>i. 0) = Inr self' \<and> position self' ! 0 \<in> \<int>"
    by simp blast
  with e t show ?thesis by simp
qed

theorem update_position_integer_lower_float_upper:
  "int_or_bool ([PyInt 0] ! 0) \<and>
   update_position
     \<lparr>position = [2], num_objectives = 1, num_particles = 2, velocity = [6 / 5],
      best_position = [0], best_fitness = [1::real], fitness = [1], ident = 0,
      topology = ''random''\<rparr>
     [PyInt 0] [PyFloat (5 / 2)] (\<lambda>i. 0)
   = Inr \<lparr>position = [5 / 2], num_objectives = 1, num_particles = 2, velocity = [6 / 5],
      best_position = [0], best_fitness = [1::real], fitness = [1], ident = 0,
      topology = ''random''\<rparr> \<and>
   (5 / 2 :: real) \<notin> \<int>"
proof -
  have "frac (5 / 2 :: real) \<noteq> 0"
    by (simp add: frac_def)
  then have "(5 / 2 :: real) \<notin> \<int>"
    by (simp add: frac_eq_0_iff)
  then show ?thesis
    by (simp add: update_position_def np_clip_def broadcast_len_def bc_def new_coordinate_def
        np_round_def)
qed

text \<open>
  C4. \<open>set_fitness\<close> stores the new fitness, and replaces \<open>best_fitness\<close> and
  \<open>best_position\<close> by the new fitness and the current position if and only if every
  component of the new fitness is at most the corresponding component of the previous
  \<open>best_fitness\<close>; otherwise both are unchanged. A fitness equal to the current best
  replaces it.
\<close>

theorem set_fitness_weak_dominance:
  assumes "length f = length (best_fitness self)"
  shows "set_fitness self f =
       Inr (if list_all2 (\<le>) f (best_fitness self)
            then self\<lparr>fitness := f, best_fitness := f, best_position := position self\<rparr>
            else self\<lparr>fitness := f\<rparr>) \<and>
     set_fitness self (best_fitness self) =
       Inr (self\<lparr>fitness := best_fitness self, best_position := position self\<rparr>)"
proof -
  have "set_fitness self (best_fitness self) =
       Inr (self\<lparr>fitness := best_fitness self, best_position := position self\<rparr>)"
    using set_fitness_same_length [of "best_fitness self" self]
    by (simp add: list_all2_same)
  with set_fitness_same_length [OF assms] show ?thesis by simp
qed

theorem set_fitness_weak_dominance_witness:
  "length [1, 3 :: real] = length [1, 4 :: real] \<and>
   set_fitness
     \<lparr>position = [7], num_objectives = 2, num_particles = 2, velocity = [0],
      best_position = [5], best_fitness = [1, 4 :: real], fitness = [9, 9], ident = 0,
      topology = ''random''\<rparr> [1, 3]
   = Inr \<lparr>position = [7], num_objectives = 2, num_particles = 2, velocity = [0],
      best_position = [7], best_fitness = [1, 3], fitness = [1, 3], ident = 0,
      topology = ''random''\<rparr> \<and>
   set_fitness
     \<lparr>position = [7], num_objectives = 2, num_particles = 2, velocity = [0],
      best_position = [5], best_fitness = [1, 4 :: real], fitness = [9, 9], ident = 0,
      topology = ''random''\<rparr> [1, 4]
   = Inr \<lparr>position = [7], num_objectives = 2, num_particles = 2, velocity = [0],
      best_position = [7], best_fitness = [1, 4], fitness = [1, 4], ident = 0,
      topology = ''random''\<rparr>"
  using set_fitness_weak_dominance [of "[1, 3 :: real]"
      "\<lparr>position = [7], num_objectives = 2, num_particles = 2, velocity = [0],
        best_position = [5], best_fitness = [1, 4 :: real], fitness = [9, 9], ident = 0,
        topology = ''random''\<rparr>"]
  by simp

text \<open>
  C5. With bounds, position and velocity of one length and \<open>lower_bound[i] \<le>
  upper_bound[i]\<close> for all \<open>i\<close>, \<open>update_position\<close> returns and every coordinate of the
  new position lies in \<open>[lower_bound[i], upper_bound[i]]\<close>, ends included.
\<close>

theorem update_position_within_bounds:
  assumes "length lower_bound = length (position self)"
    and "length upper_bound = length (position self)"
    and "length (velocity self) = length (position self)"
    and "\<forall>i<length (position self).
           bound_value (lower_bound ! i) \<le> bound_value (upper_bound ! i)"
  shows "\<exists>self'. update_position self lower_bound upper_bound junk = Inr self' \<and>
     length (position self') = length (position self) \<and>
     (\<forall>i<length (position self').
        bound_value (lower_bound ! i) \<le> position self' ! i \<and>
        position self' ! i \<le> bound_value (upper_bound ! i))"
proof -
  let ?self' = "self\<lparr>position :=
      map (\<lambda>i. min (max (new_coordinate (lower_bound ! i) (position self ! i) (velocity self ! i))
                      (bound_value (lower_bound ! i)))
                 (bound_value (upper_bound ! i)))
        [0..<length (position self)]\<rparr>"
  have r: "update_position self lower_bound upper_bound junk = Inr ?self'"
    using assms(1-3) by (rule update_position_eq)
  have "length (position ?self') = length (position self)" by simp
  moreover have "\<forall>i<length (position ?self').
        bound_value (lower_bound ! i) \<le> position ?self' ! i \<and>
        position ?self' ! i \<le> bound_value (upper_bound ! i)"
    using assms(4) by (auto simp: min_def max_def)
  ultimately show ?thesis using r by blast
qed

theorem update_position_within_bounds_witness:
  "length [PyInt 0, PyFloat 0] = length [2, 1 / 2 :: real] \<and>
   length [PyInt 5, PyFloat 1] = length [2, 1 / 2 :: real] \<and>
   length [4, 3 :: real] = length [2, 1 / 2 :: real] \<and>
   bound_value ([PyInt 0, PyFloat 0] ! 0) \<le> bound_value ([PyInt 5, PyFloat 1] ! 0) \<and>
   bound_value ([PyInt 0, PyFloat 0] ! 1) \<le> bound_value ([PyInt 5, PyFloat 1] ! 1) \<and>
   (\<exists>self'. update_position
        \<lparr>position = [2, 1 / 2], num_objectives = 1, num_particles = 2,
         velocity = [4, 3], best_position = [0, 0], best_fitness = [1::real],
         fitness = [1], ident = 0, topology = ''random''\<rparr>
        [PyInt 0, PyFloat 0] [PyInt 5, PyFloat 1] (\<lambda>i. 0) = Inr self' \<and>
      position self' = [5, 1])"
proof -
  let ?self = "\<lparr>position = [2, 1 / 2], num_objectives = 1, num_particles = 2,
         velocity = [4, 3], best_position = [0, 0], best_fitness = [1::real],
         fitness = [1], ident = 0, topology = ''random''\<rparr>"
  have h: "\<forall>i<length (position ?self).
      bound_value ([PyInt 0, PyFloat 0] ! i) \<le> bound_value ([PyInt 5, PyFloat 1] ! i)"
    by (simp add: less_Suc_eq)
  have e: "update_position ?self [PyInt 0, PyFloat 0] [PyInt 5, PyFloat 1] (\<lambda>i. 0)
      = Inr (?self\<lparr>position := [5, 1]\<rparr>)"
    by (simp add: update_position_def np_clip_def broadcast_len_def bc_def
        new_coordinate_def np_round_def)
  from update_position_within_bounds [of "[PyInt 0, PyFloat 0]" ?self
      "[PyInt 5, PyFloat 1]" "\<lambda>i. 0", OF _ _ _ h]
  have "\<exists>self'. update_position ?self [PyInt 0, PyFloat 0] [PyInt 5, PyFloat 1] (\<lambda>i. 0)
      = Inr self'"
    by auto
  with h e show ?thesis by simp
qed

end
